theory Spec2Isabelle
  imports
    Main
    "HOL-Library.AList"
    "HOL-Library.Product_Lexorder"
    "HOL-Library.List_Lexorder"
    "HOL-Library.Char_ord"
    "HOL-Library.Word"
begin

section \<open>JavaScript values, objects and asynchronous computations\<close>

text \<open>
  The class \<^verbatim>\<open>FirebaseService\<close> of \<^verbatim>\<open>firebase-service.js\<close> stages reads and writes
  against a hosted document store and an identity provider. Documents and the
  plain objects the methods build are association lists from property names to
  values, in insertion order.
\<close>

datatype val =
    VNull
  | VBool bool
  | VNum int
  | VStr string
  | VTime nat
  | VMap "(string \<times> val) list"

type_synonym obj = "(string \<times> val) list"

text \<open>An \<^verbatim>\<open>Error\<close> object; the methods only ever read its \<^verbatim>\<open>message\<close>.\<close>

datatype js_error = Error (message: string)

text \<open>
  The world a method runs in: the four collections of the store (\<open>db\<close>, by
  collection name, each a list of document id and data), the signed-in user of
  the identity provider (\<open>currentUser\<close>, its email) and the provider's accounts.
  The rest is the environment's choice, read in order: \<open>fault\<close> says whether the
  n-th request to the store or the provider is rejected (network, permission,
  quota) and with which error, \<open>auto_id\<close> is the identifier the store's
  \<^verbatim>\<open>add\<close> generates for the n-th insertion, \<open>clock\<close> is the value of the n-th
  \<^verbatim>\<open>new Date()\<close>.
\<close>

record world =
  db :: "string \<Rightarrow> (string \<times> obj) list"
  currentUser :: "string option"
  accounts :: "(string \<times> string) list"
  fault :: "nat \<Rightarrow> js_error option"
  calls :: nat
  auto_id :: "nat \<Rightarrow> string"
  adds :: nat
  clock :: "nat \<Rightarrow> nat"
  reads :: nat

text \<open>
  An \<^verbatim>\<open>async\<close> computation: from a world to a settled promise (\<open>Inl\<close> rejected
  with an error, \<open>Inr\<close> fulfilled with a value) and the world it leaves.
\<close>

type_synonym 'a js = "world \<Rightarrow> (js_error + 'a) \<times> world"

definition js_return :: "'a \<Rightarrow> 'a js" where
  "js_return x w = (Inr x, w)"

definition js_throw :: "js_error \<Rightarrow> 'a js" where
  "js_throw e w = (Inl e, w)"

text \<open>\<^verbatim>\<open>const x = await m; f(x)\<close>: a rejection of \<open>m\<close> propagates.\<close>

definition await :: "'a js \<Rightarrow> ('a \<Rightarrow> 'b js) \<Rightarrow> 'b js" where
  "await m f w = (case m w of (Inl e, w') \<Rightarrow> (Inl e, w') | (Inr x, w') \<Rightarrow> f x w')"

text \<open>\<^verbatim>\<open>try { m } catch (error) { h(error) }\<close>\<close>

definition try_catch :: "'a js \<Rightarrow> (js_error \<Rightarrow> 'a js) \<Rightarrow> 'a js" where
  "try_catch m h w = (case m w of (Inl e, w') \<Rightarrow> h e w' | (Inr x, w') \<Rightarrow> (Inr x, w'))"

text \<open>\<^verbatim>\<open>new Date()\<close>\<close>

definition new_Date :: "val js" where
  "new_Date w = (Inr (VTime (clock w (reads w))), w\<lparr>reads := Suc (reads w)\<rparr>)"

section \<open>The document store and the identity provider\<close>

text \<open>
  One request to the store or the provider. The environment may reject it, in which
  case nothing is written.
\<close>

definition remote :: "'a js \<Rightarrow> 'a js" where
  "remote act w =
     (let w' = w\<lparr>calls := Suc (calls w)\<rparr>
      in case fault w (calls w) of Some e \<Rightarrow> (Inl e, w') | None \<Rightarrow> act w')"

fun split_on :: "char \<Rightarrow> string \<Rightarrow> string list" where
  "split_on c [] = [[]]"
| "split_on c (x # xs) =
     (if x = c then [] # split_on c xs
      else (x # hd (split_on c xs)) # tl (split_on c xs))"

text \<open>
  \<^verbatim>\<open>collection(c).doc(id)\<close> throws at once unless the path \<open>c/id\<close> has an even
  number of segments, none of them empty. Whatever else makes the store refuse a
  request is a rejection by \<open>fault\<close>.
\<close>

definition valid_doc_id :: "string \<Rightarrow> bool" where
  "valid_doc_id p =
     (let segs = split_on CHR ''/'' p in odd (length segs) \<and> [] \<notin> set segs)"

definition invalid_document_reference :: js_error where
  "invalid_document_reference = Error ''Invalid document reference''"

definition invalid_field_path :: js_error where
  "invalid_field_path = Error ''Invalid field path''"

definition no_document_to_update :: js_error where
  "no_document_to_update = Error ''No document to update''"

definition invalid_credential :: js_error where
  "invalid_credential = Error ''auth/invalid-credential''"

definition doc_ref :: "string \<Rightarrow> string \<Rightarrow> (string \<times> string) js" where
  "doc_ref c p =
     (if valid_doc_id p then js_return (c, p) else js_throw invalid_document_reference)"

definition put_doc :: "string \<Rightarrow> string \<Rightarrow> obj \<Rightarrow> world \<Rightarrow> world" where
  "put_doc c p d w = w\<lparr>db := (db w)(c := AList.update p d (db w c))\<rparr>"

text \<open>\<^verbatim>\<open>ref.get()\<close>: the snapshot, \<open>None\<close> when \<^verbatim>\<open>!doc.exists\<close>, else \<^verbatim>\<open>doc.data()\<close>.\<close>

definition ref_get :: "string \<times> string \<Rightarrow> obj option js" where
  "ref_get r = remote (\<lambda>w. (Inr (map_of (db w (fst r)) (snd r)), w))"

text \<open>\<^verbatim>\<open>ref.set(data)\<close> without merge: the document is replaced whole.\<close>

definition ref_set :: "string \<times> string \<Rightarrow> obj \<Rightarrow> unit js" where
  "ref_set r d = remote (\<lambda>w. (Inr (), put_doc (fst r) (snd r) d w))"

text \<open>\<^verbatim>\<open>ref.delete()\<close> succeeds whether or not the document exists.\<close>

definition ref_delete :: "string \<times> string \<Rightarrow> unit js" where
  "ref_delete r =
     remote (\<lambda>w. (Inr (), w\<lparr>db := (db w)((fst r) := AList.delete (snd r) (db w (fst r)))\<rparr>))"

text \<open>
  \<^verbatim>\<open>ref.update(fields)\<close>: every key is a dot-separated field path; the value is
  written there, or added to the number there when it is
  \<^verbatim>\<open>FieldValue.increment(n)\<close> (a field that is missing or not a number becomes
  \<open>n\<close>). Maps on the way are created as needed. The call throws on a malformed
  path, and the store rejects it when the document does not exist. Numbers are
  whole numbers, and the sum of an increment is the exact one: that is what the
  store computes as long as the numbers are safe integers, which the statements
  that depend on a sum require.
\<close>

datatype field_op = SetTo val | Increment int

fun apply_op :: "field_op \<Rightarrow> val option \<Rightarrow> val" where
  "apply_op (SetTo v) old = v"
| "apply_op (Increment n) (Some (VNum m)) = VNum (m + n)"
| "apply_op (Increment n) old = VNum n"

fun update_path :: "string list \<Rightarrow> field_op \<Rightarrow> obj \<Rightarrow> obj" where
  "update_path [] f d = d"
| "update_path [k] f d = AList.update k (apply_op f (map_of d k)) d"
| "update_path (k # ks) f d =
     AList.update k
       (VMap (update_path ks f (case map_of d k of Some (VMap sub) \<Rightarrow> sub | _ \<Rightarrow> []))) d"

definition parse_field_path :: "string \<Rightarrow> string list option" where
  "parse_field_path s =
     (if set s \<inter> set ''~*/[]'' \<noteq> {} then None
      else let segs = split_on CHR ''.'' s in if [] \<in> set segs then None else Some segs)"

fun parse_updates :: "(string \<times> field_op) list \<Rightarrow> (string list \<times> field_op) list option" where
  "parse_updates [] = Some []"
| "parse_updates ((k, f) # ups) =
     (case parse_field_path k of
        None \<Rightarrow> None
      | Some p \<Rightarrow> (case parse_updates ups of None \<Rightarrow> None | Some ps \<Rightarrow> Some ((p, f) # ps)))"

definition apply_updates :: "(string list \<times> field_op) list \<Rightarrow> obj \<Rightarrow> obj" where
  "apply_updates ps d = fold (\<lambda>(p, f). update_path p f) ps d"

definition ref_update :: "string \<times> string \<Rightarrow> (string \<times> field_op) list \<Rightarrow> unit js" where
  "ref_update r ups =
     (case parse_updates ups of
        None \<Rightarrow> js_throw invalid_field_path
      | Some ps \<Rightarrow>
          remote (\<lambda>w. case map_of (db w (fst r)) (snd r) of
                        None \<Rightarrow> (Inl no_document_to_update, w)
                      | Some d \<Rightarrow> (Inr (), put_doc (fst r) (snd r) (apply_updates ps d) w)))"

text \<open>\<^verbatim>\<open>collection(c).add(data)\<close>: a \<^verbatim>\<open>set\<close> at a generated identifier.\<close>

definition collection_add :: "string \<Rightarrow> obj \<Rightarrow> string js" where
  "collection_add c d w =
     (let i = auto_id w (adds w)
      in remote (\<lambda>w'. (Inr i, put_doc c i d w')) (w\<lparr>adds := Suc (adds w)\<rparr>))"

text \<open>
  The store's order on values of mixed types, as far as the methods need it: by
  type first (null, boolean, number, timestamp, string, map), then by value; maps
  are not compared further.
\<close>

fun order_key :: "val \<Rightarrow> nat \<times> int \<times> string" where
  "order_key VNull = (0, 0, [])"
| "order_key (VBool b) = (1, of_bool b, [])"
| "order_key (VNum n) = (2, n, [])"
| "order_key (VTime t) = (3, int t, [])"
| "order_key (VStr s) = (4, 0, s)"
| "order_key (VMap m) = (5, 0, [])"

text \<open>\<^verbatim>\<open>collection(c).get()\<close>: every document, by identifier.\<close>

definition collection_get :: "string \<Rightarrow> (string \<times> obj) list js" where
  "collection_get c = remote (\<lambda>w. (Inr (sort_key fst (db w c)), w))"

text \<open>\<^verbatim>\<open>collection(c).where(field, '==', v).get()\<close>\<close>

definition where_eq_get :: "string \<Rightarrow> string \<Rightarrow> val \<Rightarrow> (string \<times> obj) list js" where
  "where_eq_get c field v =
     remote (\<lambda>w. (Inr (sort_key fst (filter (\<lambda>(i, d). map_of d field = Some v) (db w c))), w))"

text \<open>
  \<^verbatim>\<open>collection(c).orderBy(field, 'desc').get()\<close>: the documents that have the
  field, largest first, ties by identifier.
\<close>

definition orderBy_desc_get :: "string \<Rightarrow> string \<Rightarrow> (string \<times> obj) list js" where
  "orderBy_desc_get c field =
     remote (\<lambda>w. (Inr (rev (sort_key (\<lambda>(i, d). (order_key (the (map_of d field)), i))
                              (filter (\<lambda>(i, d). map_of d field \<noteq> None) (db w c)))), w))"

text \<open>
  \<^verbatim>\<open>auth.signInWithEmailAndPassword(email, password)\<close>: on accepted credentials
  the user becomes the current user; the result is the user (its email).
\<close>

definition signInWithEmailAndPassword :: "string \<Rightarrow> string \<Rightarrow> string js" where
  "signInWithEmailAndPassword email password =
     remote (\<lambda>w. if map_of (accounts w) email = Some password
                  then (Inr email, w\<lparr>currentUser := Some email\<rparr>)
                  else (Inl invalid_credential, w))"

definition signOut :: "unit js" where
  "signOut = remote (\<lambda>w. (Inr (), w\<lparr>currentUser := None\<rparr>))"

section \<open>FirebaseService\<close>

text \<open>
  The result objects of the methods: \<^verbatim>\<open>{success: true}\<close> with the payload of
  the method, or \<^verbatim>\<open>{success: false, error: message}\<close>.
\<close>

datatype envelope =
    Success
  | Success_id string
  | Success_bookings "obj list"
  | Success_activities obj
  | Success_slots val
  | Success_user string
  | Failure string

fun success :: "envelope \<Rightarrow> bool" where
  "success (Failure m) = False"
| "success e = True"

text \<open>
  The argument of \<^verbatim>\<open>createBooking\<close>: an object whose \<^verbatim>\<open>date\<close> and \<^verbatim>\<open>time\<close> are
  strings and whose \<^verbatim>\<open>kids\<close> and \<^verbatim>\<open>adults\<close> are counts: whole numbers from 0 to
  \<open>2^53 - 1\<close>, the largest that \<^verbatim>\<open>Number.isSafeInteger\<close> accepts (\<open>uint\<close> reads the
  number). Any other properties are in \<open>extra\<close>. \<open>properties\<close> is the object itself,
  property by property.
\<close>

record bookingData =
  date :: string
  time :: string
  kids :: "53 word"
  adults :: "53 word"
  extra :: obj

text \<open>\<^verbatim>\<open>{...a, ...b}\<close>: the properties of \<open>b\<close> written over those of \<open>a\<close>.\<close>

definition spread :: "obj \<Rightarrow> obj \<Rightarrow> obj" where
  "spread a b = fold (\<lambda>(k, v). AList.update k v) b a"

definition properties :: "bookingData \<Rightarrow> obj" where
  "properties b =
     spread (extra b)
       [(''date'', VStr (date b)), (''time'', VStr (time b)),
        (''kids'', VNum (uint (kids b))), (''adults'', VNum (uint (adults b)))]"

text \<open>
  \<^verbatim>\<open>bookingData.kids + bookingData.adults\<close>: the sum of two such numbers as
  JavaScript computes it, in double precision. Up to \<open>2^53\<close> the sum is exact. Above
  (and below \<open>2^54\<close>) the doubles are the even numbers, so an odd sum lies halfway
  between two of them and goes to the one whose significand is even, which is the
  multiple of 4.
\<close>

definition js_add :: "53 word \<Rightarrow> 53 word \<Rightarrow> int" where
  "js_add a b =
     (let s = uint a + uint b
      in if s \<le> 2 ^ 53 \<or> even s then s else if 4 dvd s + 1 then s + 1 else s - 1)"

subsection \<open>Availability\<close>

text \<open>\<^verbatim>\<open>hour.toString()\<close> for a whole number that is not negative.\<close>

definition digit :: "nat \<Rightarrow> char" where
  "digit n = char_of (48 + n)"

fun toString :: "nat \<Rightarrow> string" where
  "toString n = (if n < 10 then [digit n] else toString (n div 10) @ [digit (n mod 10)])"

declare toString.simps [simp del]

definition padStart :: "string \<Rightarrow> nat \<Rightarrow> char \<Rightarrow> string" where
  "padStart s n c = replicate (n - length s) c @ s"

text \<open>
  The loop of \<^verbatim>\<open>generateDefaultSlots\<close>:
  \<^verbatim>\<open>for (let hour = 9; hour <= 18; hour++) { slots[time] = {booked: 0, total: 100} }\<close>
\<close>

function slots_loop :: "nat \<Rightarrow> obj \<Rightarrow> obj" where
  "slots_loop hour slots =
     (if hour \<le> 18
      then slots_loop (hour + 1)
             (AList.update (padStart (toString hour) 2 CHR ''0'' @ '':00'')
                (VMap [(''booked'', VNum 0), (''total'', VNum 100)]) slots)
      else slots)"
  by pat_completeness auto
termination
  by (relation "measure (\<lambda>(hour, slots). 19 - hour)") auto

declare slots_loop.simps [simp del]

definition generateDefaultSlots :: obj where
  "generateDefaultSlots = slots_loop 9 []"

text \<open>\<^verbatim>\<open>x || {}\<close> on a property that may be missing.\<close>

definition falsy :: "val \<Rightarrow> bool" where
  "falsy v =
     (case v of
        VNull \<Rightarrow> True
      | VBool b \<Rightarrow> \<not> b
      | VNum n \<Rightarrow> n = 0
      | VStr s \<Rightarrow> s = []
      | VTime t \<Rightarrow> False
      | VMap m \<Rightarrow> False)"

definition or_empty_object :: "val option \<Rightarrow> val" where
  "or_empty_object x =
     (case x of None \<Rightarrow> VMap [] | Some v \<Rightarrow> if falsy v then VMap [] else v)"

definition getAvailability :: "string \<Rightarrow> envelope js" where
  "getAvailability date' =
     try_catch
       (await (doc_ref ''availability'' date') (\<lambda>ref.
        await (ref_get ref) (\<lambda>doc.
          case doc of
            Some data \<Rightarrow> js_return (Success_slots (or_empty_object (map_of data ''slots'')))
          | None \<Rightarrow>
              await (ref_set ref [(''date'', VStr date'), (''slots'', VMap generateDefaultSlots)])
                (\<lambda>_. js_return (Success_slots (VMap generateDefaultSlots))))))
       (\<lambda>error. js_return (Failure (message error)))"

definition updateAvailability :: "string \<Rightarrow> string \<Rightarrow> int \<Rightarrow> envelope js" where
  "updateAvailability date' time' change =
     try_catch
       (await (doc_ref ''availability'' date') (\<lambda>availabilityRef.
        await (ref_get availabilityRef) (\<lambda>doc.
        await (if doc = None
               then ref_set availabilityRef
                      [(''date'', VStr date'), (''slots'', VMap generateDefaultSlots)]
               else js_return ()) (\<lambda>_.
        await (ref_update availabilityRef
                 [(''slots.'' @ time' @ ''.booked'', Increment change)]) (\<lambda>_.
        js_return Success)))))
       (\<lambda>error. js_return (Failure (message error)))"

subsection \<open>Bookings\<close>

definition createBooking :: "bookingData \<Rightarrow> envelope js" where
  "createBooking b =
     try_catch
       (await new_Date (\<lambda>createdAt.
        await new_Date (\<lambda>updatedAt.
        await (collection_add ''bookings''
                 (AList.update ''updatedAt'' updatedAt
                   (AList.update ''createdAt'' createdAt
                     (AList.update ''status'' (VStr ''pending'') (properties b))))) (\<lambda>bookingRef.
        await (updateAvailability (date b) (time b) (js_add (kids b) (adults b))) (\<lambda>_.
        js_return (Success_id bookingRef))))))
       (\<lambda>error. js_return (Failure (message error)))"

text \<open>\<^verbatim>\<open>{ id: doc.id, ...doc.data() }\<close>\<close>

definition with_id :: "string \<times> obj \<Rightarrow> obj" where
  "with_id doc = spread [(''id'', VStr (fst doc))] (snd doc)"

definition getAllBookings :: "envelope js" where
  "getAllBookings =
     try_catch
       (await (orderBy_desc_get ''bookings'' ''createdAt'') (\<lambda>snapshot.
        js_return (Success_bookings (map with_id snapshot))))
       (\<lambda>error. js_return (Failure (message error)))"


definition updateBooking :: "string \<Rightarrow> obj \<Rightarrow> envelope js" where
  "updateBooking bookingId updates =
     try_catch
       (await (doc_ref ''bookings'' bookingId) (\<lambda>ref.
        await new_Date (\<lambda>now.
        await (ref_update ref
                 (map (\<lambda>(k, v). (k, SetTo v)) (AList.update ''updatedAt'' now updates))) (\<lambda>_.
        js_return Success))))
       (\<lambda>error. js_return (Failure (message error)))"

definition deleteBooking :: "string \<Rightarrow> envelope js" where
  "deleteBooking bookingId =
     try_catch
       (await (doc_ref ''bookings'' bookingId) (\<lambda>ref.
        await (ref_delete ref) (\<lambda>_.
        js_return Success)))
       (\<lambda>error. js_return (Failure (message error)))"

subsection \<open>Activities\<close>

definition getActivities :: "envelope js" where
  "getActivities =
     try_catch
       (await (collection_get ''activities'') (\<lambda>snapshot.
        js_return (Success_activities
                     (fold (\<lambda>(i, d). AList.update i (VMap d)) snapshot []))))
       (\<lambda>error. js_return (Failure (message error)))"

subsection \<open>Authentication\<close>

definition adminLogin :: "string \<Rightarrow> string \<Rightarrow> envelope js" where
  "adminLogin email password =
     try_catch
       (await (signInWithEmailAndPassword email password) (\<lambda>user.
        await (where_eq_get ''admins'' ''email'' (VStr email)) (\<lambda>adminDoc.
          if adminDoc \<noteq> [] then js_return (Success_user user)
          else await signOut (\<lambda>_. js_return (Failure ''Not an admin user'')))))
       (\<lambda>error. js_return (Failure (message error)))"

definition adminLogout :: "envelope js" where
  "adminLogout =
     try_catch
       (await signOut (\<lambda>_. js_return Success))
       (\<lambda>error. js_return (Failure (message error)))"

text \<open>\<^verbatim>\<open>isAdmin\<close> has no \<^verbatim>\<open>try\<close>: a rejected lookup rejects the call.\<close>

definition isAdmin :: "bool js" where
  "isAdmin w =
     (case currentUser w of
        None \<Rightarrow> js_return False w
      | Some email \<Rightarrow>
          await (where_eq_get ''admins'' ''email'' (VStr email))
            (\<lambda>adminDoc. js_return (adminDoc \<noteq> [])) w)"

subsection \<open>Concurrent calls of updateAvailability\<close>

text \<open>
  A call of \<^verbatim>\<open>updateAvailability\<close> gives control back at each \<^verbatim>\<open>await\<close>, so calls
  that are in flight together take turns between their requests to the store.
  \<open>ua_step\<close> is one turn of one call: from where the call stands (\<open>At_get\<close> before
  \<^verbatim>\<open>availabilityRef.get()\<close>, \<open>At_set\<close> before the \<^verbatim>\<open>set\<close> of the default day,
  \<open>At_update\<close> before the increment, \<open>Returned\<close> with its envelope) through its next
  request. \<open>interleave\<close> runs several calls with the same arguments by a schedule
  that names the call whose turn it is.
\<close>

datatype ua_pc = At_get | At_set | At_update | Returned envelope

definition ua_step :: "string \<Rightarrow> string \<Rightarrow> int \<Rightarrow> ua_pc \<Rightarrow> world \<Rightarrow> ua_pc \<times> world" where
  "ua_step date' time' change pc w =
     (case pc of
        At_get \<Rightarrow>
          (case await (doc_ref ''availability'' date') ref_get w of
             (Inl error, w') \<Rightarrow> (Returned (Failure (message error)), w')
           | (Inr doc, w') \<Rightarrow> (if doc = None then At_set else At_update, w'))
      | At_set \<Rightarrow>
          (case ref_set (''availability'', date')
                  [(''date'', VStr date'), (''slots'', VMap generateDefaultSlots)] w of
             (Inl error, w') \<Rightarrow> (Returned (Failure (message error)), w')
           | (Inr u, w') \<Rightarrow> (At_update, w'))
      | At_update \<Rightarrow>
          (case ref_update (''availability'', date')
                  [(''slots.'' @ time' @ ''.booked'', Increment change)] w of
             (Inl error, w') \<Rightarrow> (Returned (Failure (message error)), w')
           | (Inr u, w') \<Rightarrow> (Returned Success, w'))
      | Returned r \<Rightarrow> (Returned r, w))"

fun interleave ::
  "string \<Rightarrow> string \<Rightarrow> int \<Rightarrow> nat list \<Rightarrow> ua_pc list \<times> world \<Rightarrow> ua_pc list \<times> world" where
  "interleave d t c [] cfg = cfg"
| "interleave d t c (i # schedule) (pcs, w) =
     (if i < length pcs
      then (case ua_step d t c (pcs ! i) w of
              (pc', w') \<Rightarrow> interleave d t c schedule (pcs[i := pc'], w'))
      else interleave d t c schedule (pcs, w))"

section \<open>Reading results\<close>

text \<open>
  \<^verbatim>\<open>x[k]\<close> on a value that may be missing; \<open>None\<close> is \<^verbatim>\<open>undefined\<close>. So
  \<^verbatim>\<open>slots["09:00"].booked\<close> is \<open>js_get (js_get (Some slots) ''09:00'') ''booked''\<close>.
\<close>

fun js_get :: "val option \<Rightarrow> string \<Rightarrow> val option" where
  "js_get (Some (VMap m)) k = map_of m k"
| "js_get x k = None"

text \<open>The document both availability methods write for a date that has none.\<close>

definition default_day :: "string \<Rightarrow> obj" where
  "default_day d = [(''date'', VStr d), (''slots'', VMap generateDefaultSlots)]"

text \<open>
  A slot key that is one segment of a field path: not empty, no dot, none of the
  characters a field path may not contain.
\<close>

definition slot_key :: "string \<Rightarrow> bool" where
  "slot_key t = (t \<noteq> [] \<and> CHR ''.'' \<notin> set t \<and> set t \<inter> set ''~*/[]'' = {})"

text \<open>
  A world to run the methods in: an empty store, nobody signed in, one account at
  the provider, no request rejected.
\<close>

definition empty_world :: world where
  "empty_world =
     \<lparr>db = (\<lambda>c. []), currentUser = None, accounts = [(''owner@happyville.example'', ''secret'')],
      fault = (\<lambda>n. None), calls = 0,
      auto_id = (\<lambda>n. ''booking-'' @ toString n), adds = 0,
      clock = (\<lambda>n. 1700000000000 + n), reads = 0\<rparr>"

text \<open>
  \<^verbatim>\<open>slots[t].booked\<close> of the availability document of a date, and the number it
  stands for (a count that is missing or not a number counts as 0, as the
  store's increment takes it).
\<close>

definition booked :: "world \<Rightarrow> string \<Rightarrow> string \<Rightarrow> val option" where
  "booked w d t =
     (case map_of (db w ''availability'') d of
        None \<Rightarrow> None
      | Some day \<Rightarrow> js_get (js_get (map_of day ''slots'') t) ''booked'')"

definition count :: "val option \<Rightarrow> int" where
  "count x = (case x of Some (VNum n) \<Rightarrow> n | _ \<Rightarrow> 0)"

text \<open>A booking request, and a store that accepts the first request only.\<close>

definition family_booking :: bookingData where
  "family_booking =
     \<lparr>date = ''2024-06-01'', time = ''10:00'', kids = 2, adults = 1,
      extra = [(''name'', VStr ''Ada''), (''status'', VStr ''confirmed'')]\<rparr>"

definition unavailable :: js_error where
  "unavailable = Error ''The service is currently unavailable''"

definition offline_world :: world where
  "offline_world = empty_world\<lparr>fault := (\<lambda>n. Some unavailable)\<rparr>"

definition flaky_world :: world where
  "flaky_world = empty_world\<lparr>fault := (\<lambda>n. if n = 0 then None else Some unavailable)\<rparr>"

text \<open>
  A world in which the owner is signed in and listed in \<^verbatim>\<open>admins\<close>, and a world
  whose store holds one booking.
\<close>

definition admin_world :: world where
  "admin_world =
     empty_world
       \<lparr>db := (\<lambda>c. if c = ''admins'' then [(''admin-1'', [(''email'', VStr ''owner@happyville.example'')])]
                    else []),
        currentUser := Some ''owner@happyville.example''\<rparr>"

definition stored_booking :: obj where
  "stored_booking =
     [(''name'', VStr ''Ada''), (''status'', VStr ''pending''), (''date'', VStr ''2024-06-01''),
      (''time'', VStr ''10:00''), (''kids'', VNum 2), (''adults'', VNum 1),
      (''createdAt'', VTime 1690000000000), (''updatedAt'', VTime 1690000000000)]"

definition one_booking_world :: world where
  "one_booking_world =
     empty_world\<lparr>db := (\<lambda>c. if c = ''bookings'' then [(''booking-0'', stored_booking)] else [])\<rparr>"

text \<open>
  The whole numbers that a double holds exactly and the store keeps as integers
  (\<^verbatim>\<open>Number.isSafeInteger\<close>).
\<close>

definition safe_integer :: "int \<Rightarrow> bool" where
  "safe_integer n = (\<bar>n\<bar> < 2 ^ 53)"

text \<open>The calls of a run that have returned their success envelope.\<close>

definition returned :: "ua_pc list \<Rightarrow> nat" where
  "returned pcs = length (filter (\<lambda>p. p = Returned Success) pcs)"

section \<open>Requests that the store accepts or rejects\<close>

lemma remote_ok:
  "fault w (calls w) = None \<Longrightarrow> remote act w = act (w\<lparr>calls := Suc (calls w)\<rparr>)"
  by (simp add: remote_def)

lemma remote_rejected:
  "fault w (calls w) = Some e \<Longrightarrow> remote act w = (Inl e, w\<lparr>calls := Suc (calls w)\<rparr>)"
  by (simp add: remote_def)

lemma split_on_none: "c \<notin> set xs \<Longrightarrow> split_on c xs = [xs]"
  by (induction xs) auto

lemma split_on_first: "c \<notin> set xs \<Longrightarrow> split_on c (xs @ c # ys) = xs # split_on c ys"
  by (induction xs) auto

lemma parse_slot_path:
  assumes "slot_key t"
  shows "parse_field_path (''slots.'' @ t @ ''.booked'') = Some [''slots'', t, ''booked'']"
proof -
  have a: "split_on CHR ''.'' (''slots'' @ CHR ''.'' # (t @ CHR ''.'' # ''booked''))
             = ''slots'' # split_on CHR ''.'' (t @ CHR ''.'' # ''booked'')"
    by (rule split_on_first) simp
  have b: "split_on CHR ''.'' (t @ CHR ''.'' # ''booked'') = t # split_on CHR ''.'' ''booked''"
    using assms by (intro split_on_first) (simp add: slot_key_def)
  have c: "split_on CHR ''.'' ''booked'' = [''booked'']"
    by (rule split_on_none) simp
  have "split_on CHR ''.'' (''slots.'' @ t @ ''.booked'') = [''slots'', t, ''booked'']"
    using a b c by simp
  moreover have "set (''slots.'' @ t @ ''.booked'') \<inter> set ''~*/[]'' = {}"
    using assms by (auto simp: slot_key_def)
  ultimately show ?thesis
    using assms by (auto simp: parse_field_path_def slot_key_def Let_def)
qed

lemma js_get_update_path:
  "js_get (js_get (map_of (update_path [a, t, b] f d) a) t) b
     = Some (apply_op f (js_get (js_get (map_of d a) t) b))"
  by (auto simp: update_conv' split: option.splits val.splits)

lemma js_get_update_path_other:
  "t' \<noteq> t \<Longrightarrow> js_get (map_of (update_path [a, t, b] f d) a) t' = js_get (map_of d a) t'"
  by (auto simp: update_conv' split: option.splits val.splits)

section \<open>Availability\<close>

lemma generateDefaultSlots_eq:
  "generateDefaultSlots =
     [(''09:00'', VMap [(''booked'', VNum 0), (''total'', VNum 100)]),
      (''10:00'', VMap [(''booked'', VNum 0), (''total'', VNum 100)]),
      (''11:00'', VMap [(''booked'', VNum 0), (''total'', VNum 100)]),
      (''12:00'', VMap [(''booked'', VNum 0), (''total'', VNum 100)]),
      (''13:00'', VMap [(''booked'', VNum 0), (''total'', VNum 100)]),
      (''14:00'', VMap [(''booked'', VNum 0), (''total'', VNum 100)]),
      (''15:00'', VMap [(''booked'', VNum 0), (''total'', VNum 100)]),
      (''16:00'', VMap [(''booked'', VNum 0), (''total'', VNum 100)]),
      (''17:00'', VMap [(''booked'', VNum 0), (''total'', VNum 100)]),
      (''18:00'', VMap [(''booked'', VNum 0), (''total'', VNum 100)])]"
  by code_simp

lemma getAvailability_existing:
  assumes "valid_doc_id d" and "map_of (db w ''availability'') d = Some data"
    and "fault w (calls w) = None"
  shows "getAvailability d w =
     (Inr (Success_slots (or_empty_object (map_of data ''slots''))),
      w\<lparr>calls := Suc (calls w)\<rparr>)"
  using assms
  by (simp add: getAvailability_def try_catch_def await_def doc_ref_def js_return_def
      ref_get_def remote_ok)

lemma updateAvailability_accepted:
  assumes "valid_doc_id d" and "slot_key t"
    and "fault w (calls w) = None" and "fault w (Suc (calls w)) = None"
    and "fault w (Suc (Suc (calls w))) = None"
  shows "updateAvailability d t c w =
     (Inr Success,
      put_doc ''availability'' d
        (update_path [''slots'', t, ''booked''] (Increment c)
           (case map_of (db w ''availability'') d of None \<Rightarrow> default_day d | Some data \<Rightarrow> data))
        (w\<lparr>calls := calls w + (if map_of (db w ''availability'') d = None then 3 else 2)\<rparr>))"
  using assms parse_slot_path [OF assms(2)]
  by (auto simp: updateAvailability_def try_catch_def await_def doc_ref_def js_return_def
      ref_get_def ref_set_def ref_update_def remote_ok put_doc_def update_conv' apply_updates_def
      default_day_def)

text \<open>
  C2. For a date that has no availability document, \<^verbatim>\<open>getAvailability(date)\<close>
  returns the success envelope whose slot map has exactly the ten entries
  \<^verbatim>\<open>09:00\<close> to \<^verbatim>\<open>18:00\<close>, each \<^verbatim>\<open>{booked: 0, total: 100}\<close>, and stores
  \<^verbatim>\<open>{date, slots}\<close> with that same map under the date, leaving every other document
  as it was. The date is one the store takes as a document identifier, and the
  store answers the read and the write.
\<close>

theorem getAvailability_unseen_date:
  assumes "valid_doc_id d" and "map_of (db w ''availability'') d = None"
    and "fault w (calls w) = None" and "fault w (Suc (calls w)) = None"
  shows "\<exists>slots w'.
      getAvailability d w = (Inr (Success_slots (VMap slots)), w')
    \<and> slots =
        [(''09:00'', VMap [(''booked'', VNum 0), (''total'', VNum 100)]),
         (''10:00'', VMap [(''booked'', VNum 0), (''total'', VNum 100)]),
         (''11:00'', VMap [(''booked'', VNum 0), (''total'', VNum 100)]),
         (''12:00'', VMap [(''booked'', VNum 0), (''total'', VNum 100)]),
         (''13:00'', VMap [(''booked'', VNum 0), (''total'', VNum 100)]),
         (''14:00'', VMap [(''booked'', VNum 0), (''total'', VNum 100)]),
         (''15:00'', VMap [(''booked'', VNum 0), (''total'', VNum 100)]),
         (''16:00'', VMap [(''booked'', VNum 0), (''total'', VNum 100)]),
         (''17:00'', VMap [(''booked'', VNum 0), (''total'', VNum 100)]),
         (''18:00'', VMap [(''booked'', VNum 0), (''total'', VNum 100)])]
    \<and> map_of (db w' ''availability'') d = Some [(''date'', VStr d), (''slots'', VMap slots)]
    \<and> (\<forall>d'. d' \<noteq> d \<longrightarrow> map_of (db w' ''availability'') d' = map_of (db w ''availability'') d')
    \<and> (\<forall>c. c \<noteq> ''availability'' \<longrightarrow> db w' c = db w c)"
proof -
  have "getAvailability d w =
     (Inr (Success_slots (VMap generateDefaultSlots)),
      put_doc ''availability'' d [(''date'', VStr d), (''slots'', VMap generateDefaultSlots)]
        (w\<lparr>calls := calls w + 2\<rparr>))"
    using assms
    by (simp add: getAvailability_def try_catch_def await_def doc_ref_def js_return_def
        ref_get_def ref_set_def remote_ok put_doc_def)
  then show ?thesis
    by (simp add: generateDefaultSlots_eq put_doc_def update_conv')
qed

theorem getAvailability_unseen_date_witness:
  "valid_doc_id ''2024-06-01''
   \<and> map_of (db empty_world ''availability'') ''2024-06-01'' = None
   \<and> fst (getAvailability ''2024-06-01'' empty_world)
       = Inr (Success_slots (VMap
           [(''09:00'', VMap [(''booked'', VNum 0), (''total'', VNum 100)]),
            (''10:00'', VMap [(''booked'', VNum 0), (''total'', VNum 100)]),
            (''11:00'', VMap [(''booked'', VNum 0), (''total'', VNum 100)]),
            (''12:00'', VMap [(''booked'', VNum 0), (''total'', VNum 100)]),
            (''13:00'', VMap [(''booked'', VNum 0), (''total'', VNum 100)]),
            (''14:00'', VMap [(''booked'', VNum 0), (''total'', VNum 100)]),
            (''15:00'', VMap [(''booked'', VNum 0), (''total'', VNum 100)]),
            (''16:00'', VMap [(''booked'', VNum 0), (''total'', VNum 100)]),
            (''17:00'', VMap [(''booked'', VNum 0), (''total'', VNum 100)]),
            (''18:00'', VMap [(''booked'', VNum 0), (''total'', VNum 100)])]))"
proof -
  have v: "valid_doc_id ''2024-06-01''"
    by (simp add: valid_doc_id_def)
  have n: "map_of (db empty_world ''availability'') ''2024-06-01'' = None"
    by (simp add: empty_world_def)
  have f: "fault empty_world (calls empty_world) = None"
    "fault empty_world (Suc (calls empty_world)) = None"
    by (simp_all add: empty_world_def)
  show ?thesis
    using v n getAvailability_unseen_date [OF v n f] by auto
qed

text \<open>
  C1. On a date that has no availability document,
  \<^verbatim>\<open>updateAvailability(d, "09:00", +5)\<close> followed by \<^verbatim>\<open>getAvailability(d)\<close> yields
  \<^verbatim>\<open>slots["09:00"].booked == 5\<close>: both calls return their success envelope, and the
  count read back is 5. The date is one the store takes as a document identifier,
  and the store answers the four requests (read, write, increment, read).
\<close>

theorem updateAvailability_read_back:
  assumes "valid_doc_id d" and "map_of (db w ''availability'') d = None"
    and "fault w (calls w) = None" and "fault w (calls w + 1) = None"
    and "fault w (calls w + 2) = None" and "fault w (calls w + 3) = None"
  shows "\<exists>w1 slots w2.
      updateAvailability d ''09:00'' 5 w = (Inr Success, w1)
    \<and> getAvailability d w1 = (Inr (Success_slots slots), w2)
    \<and> js_get (js_get (Some slots) ''09:00'') ''booked'' = Some (VNum 5)"
proof -
  let ?data = "update_path [''slots'', ''09:00'', ''booked''] (Increment 5) (default_day d)"
  let ?w1 = "put_doc ''availability'' d ?data (w\<lparr>calls := calls w + 3\<rparr>)"
  have k: "slot_key ''09:00''"
    by (simp add: slot_key_def)
  have u: "updateAvailability d ''09:00'' 5 w = (Inr Success, ?w1)"
    using updateAvailability_accepted [OF assms(1) k, of w 5] assms by simp
  have m: "map_of (db ?w1 ''availability'') d = Some ?data"
    by (simp add: put_doc_def update_conv')
  have f: "fault ?w1 (calls ?w1) = None"
    using assms(6) by (simp add: put_doc_def numeral_3_eq_3)
  have g: "getAvailability d ?w1 =
      (Inr (Success_slots (or_empty_object (map_of ?data ''slots''))), ?w1\<lparr>calls := Suc (calls ?w1)\<rparr>)"
    by (rule getAvailability_existing [OF assms(1) m f])
  have s: "js_get (js_get (Some (or_empty_object (map_of ?data ''slots''))) ''09:00'') ''booked''
             = Some (VNum 5)"
    by (simp add: default_day_def generateDefaultSlots_eq or_empty_object_def falsy_def)
  show ?thesis
    using u g s by blast
qed

theorem updateAvailability_read_back_witness:
  "valid_doc_id ''2024-06-01''
   \<and> map_of (db empty_world ''availability'') ''2024-06-01'' = None
   \<and> (\<exists>w1 slots w2.
        updateAvailability ''2024-06-01'' ''09:00'' 5 empty_world = (Inr Success, w1)
      \<and> getAvailability ''2024-06-01'' w1 = (Inr (Success_slots slots), w2)
      \<and> js_get (js_get (Some slots) ''09:00'') ''booked'' = Some (VNum 5))"
proof -
  have v: "valid_doc_id ''2024-06-01''"
    by (simp add: valid_doc_id_def)
  have n: "map_of (db empty_world ''availability'') ''2024-06-01'' = None"
    by (simp add: empty_world_def)
  have f: "fault empty_world (calls empty_world) = None"
    "fault empty_world (calls empty_world + 1) = None"
    "fault empty_world (calls empty_world + 2) = None"
    "fault empty_world (calls empty_world + 3) = None"
    by (simp_all add: empty_world_def)
  show ?thesis
    using v n updateAvailability_read_back [OF v n f] by simp
qed

lemma try_catch_envelope:
  "\<exists>r w'. try_catch m (\<lambda>error. js_return (Failure (message error))) w = (Inr r, w')"
  by (cases "m w" rule: prod.exhaust; cases "fst (m w)")
     (auto simp: try_catch_def js_return_def split: sum.splits)

lemma updateAvailability_never_rejects:
  "\<exists>r w'. updateAvailability d t c w = (Inr r, w')"
  unfolding updateAvailability_def by (rule try_catch_envelope)

lemma default_day_count:
  "count (js_get (js_get (map_of (default_day d) ''slots'') t) ''booked'') = 0"
  by (simp add: default_day_def generateDefaultSlots_eq count_def)

lemma apply_op_Increment: "apply_op (Increment c) x = VNum (count x + c)"
  by (cases "(Increment c, x)" rule: apply_op.cases) (simp_all add: count_def)

lemma updateAvailability_increments:
  assumes "valid_doc_id d" and "slot_key t"
    and "fault w (calls w) = None" and "fault w (Suc (calls w)) = None"
    and "fault w (Suc (Suc (calls w))) = None"
  shows "booked (snd (updateAvailability d t c w)) d t = Some (VNum (count (booked w d t) + c))"
proof (cases "map_of (db w ''availability'') d")
  case None
  then show ?thesis
    using default_day_count [of d t]
    by (simp add: updateAvailability_accepted [OF assms] booked_def put_doc_def update_conv'
        js_get_update_path apply_op_Increment del: update_path.simps) (simp add: count_def)
next
  case (Some day)
  then show ?thesis
    by (simp add: updateAvailability_accepted [OF assms] booked_def put_doc_def update_conv'
        js_get_update_path apply_op_Increment del: update_path.simps)
qed

lemma updateAvailability_rejected:
  assumes "valid_doc_id d" and "fault v (calls v) = Some e"
  shows "updateAvailability d t c v = (Inr (Failure (message e)), v\<lparr>calls := Suc (calls v)\<rparr>)"
  using assms
  by (simp add: updateAvailability_def try_catch_def await_def doc_ref_def js_return_def
      ref_get_def remote_rejected)

section \<open>Bookings\<close>

lemma toString_0: "toString 0 = ''0''"
  by code_simp

text \<open>The sum is exact as long as it is a safe integer, and is rounded above.\<close>

lemma js_add_exact: "uint a + uint b < 2 ^ 53 \<Longrightarrow> js_add a b = uint a + uint b"
  by (simp add: js_add_def Let_def)

lemma js_add_rounds: "js_add 9007199254740991 2 = 9007199254740992"
  by (simp add: js_add_def Let_def)

lemma js_add_rounds_up: "js_add 9007199254740991 4 = 9007199254740996"
  by (simp add: js_add_def Let_def)

lemma map_of_properties:
  "map_of (properties b) =
     (map_of (extra b))(''date'' \<mapsto> VStr (date b), ''time'' \<mapsto> VStr (time b),
        ''kids'' \<mapsto> VNum (uint (kids b)), ''adults'' \<mapsto> VNum (uint (adults b)))"
  by (simp add: properties_def spread_def update_conv')

lemma createBooking_accepted:
  assumes "fault w (calls w) = None"
  shows "createBooking b w =
     (Inr (Success_id (auto_id w (adds w))),
      snd (updateAvailability (date b) (time b) (js_add (kids b) (adults b))
        (put_doc ''bookings'' (auto_id w (adds w))
           (AList.update ''updatedAt'' (VTime (clock w (Suc (reads w))))
             (AList.update ''createdAt'' (VTime (clock w (reads w)))
               (AList.update ''status'' (VStr ''pending'') (properties b))))
           (w\<lparr>reads := Suc (Suc (reads w)), adds := Suc (adds w), calls := Suc (calls w)\<rparr>))))"
proof -
  obtain r w' where "updateAvailability (date b) (time b) (js_add (kids b) (adults b))
     (put_doc ''bookings'' (auto_id w (adds w))
         (AList.update ''updatedAt'' (VTime (clock w (Suc (reads w))))
           (AList.update ''createdAt'' (VTime (clock w (reads w)))
             (AList.update ''status'' (VStr ''pending'') (properties b))))
         (w\<lparr>reads := Suc (Suc (reads w)), adds := Suc (adds w), calls := Suc (calls w)\<rparr>))
       = (Inr r, w')"
    using updateAvailability_never_rejects by blast
  then show ?thesis
    using assms
    by (simp add: createBooking_def try_catch_def await_def js_return_def new_Date_def
        collection_add_def remote_ok Let_def)
qed

lemma createBooking_rejected:
  assumes "fault w (calls w) = Some e"
  shows "createBooking b w =
     (Inr (Failure (message e)),
      w\<lparr>reads := Suc (Suc (reads w)), adds := Suc (adds w), calls := Suc (calls w)\<rparr>)"
  using assms
  by (simp add: createBooking_def try_catch_def await_def js_return_def new_Date_def
      collection_add_def remote_rejected Let_def)

text \<open>
  C3, as the code has it. \<^verbatim>\<open>createBooking(data)\<close>, for \<open>data\<close> whose \<^verbatim>\<open>date\<close> and
  \<^verbatim>\<open>time\<close> are strings and whose \<^verbatim>\<open>kids\<close> and \<^verbatim>\<open>adults\<close> are counts, reads the
  clock twice, for \<^verbatim>\<open>createdAt\<close> and for \<^verbatim>\<open>updatedAt\<close>, and asks the store to insert
  the properties of \<open>data\<close> with \<^verbatim>\<open>status\<close> set to \<^verbatim>\<open>"pending"\<close>, whatever status
  the caller gave.

  When the store accepts the insert, the new document is stored under the
  generated identifier with that status and those two timestamps, the other
  properties are those of \<open>data\<close>, nothing else in the store changes; then
  \<^verbatim>\<open>updateAvailability(data.date, data.time, data.kids + data.adults)\<close> runs on that
  store, and the result is the success envelope with the new identifier,
  whatever that call did. The count of the slot has grown by \<open>kids + adults\<close>
  when the date is a document identifier, the time a slot key, the store answers
  the availability requests, and the sum, the count before and the count after
  are safe integers.

  When the store rejects the insert, the result is the failure envelope with the
  message of the store's error, and the store is unchanged.
\<close>

theorem createBooking_inserts_pending:
  "(fault w (calls w) = None \<longrightarrow>
      (\<exists>doc w1 w'.
          map_of (db w1 ''bookings'') (auto_id w (adds w)) = Some doc
        \<and> map_of doc ''status'' = Some (VStr ''pending'')
        \<and> map_of doc ''createdAt'' = Some (VTime (clock w (reads w)))
        \<and> map_of doc ''updatedAt'' = Some (VTime (clock w (Suc (reads w))))
        \<and> map_of doc ''date'' = Some (VStr (date b))
        \<and> map_of doc ''time'' = Some (VStr (time b))
        \<and> map_of doc ''kids'' = Some (VNum (uint (kids b)))
        \<and> map_of doc ''adults'' = Some (VNum (uint (adults b)))
        \<and> (\<forall>k. k \<notin> {''status'', ''createdAt'', ''updatedAt'', ''date'', ''time'', ''kids'', ''adults''}
               \<longrightarrow> map_of doc k = map_of (extra b) k)
        \<and> (\<forall>i. i \<noteq> auto_id w (adds w)
               \<longrightarrow> map_of (db w1 ''bookings'') i = map_of (db w ''bookings'') i)
        \<and> (\<forall>c. c \<noteq> ''bookings'' \<longrightarrow> db w1 c = db w c)
        \<and> snd (updateAvailability (date b) (time b) (js_add (kids b) (adults b)) w1) = w'
        \<and> createBooking b w = (Inr (Success_id (auto_id w (adds w))), w')
        \<and> (valid_doc_id (date b) \<and> slot_key (time b) \<and> fault w (calls w + 1) = None
             \<and> fault w (calls w + 2) = None \<and> fault w (calls w + 3) = None
             \<and> safe_integer (uint (kids b) + uint (adults b))
             \<and> safe_integer (count (booked w (date b) (time b)))
             \<and> safe_integer (count (booked w (date b) (time b))
                               + (uint (kids b) + uint (adults b)))
            \<longrightarrow> booked w' (date b) (time b)
                  = Some (VNum (count (booked w (date b) (time b))
                                  + (uint (kids b) + uint (adults b)))))))
 \<and> (\<forall>e. fault w (calls w) = Some e \<longrightarrow>
      (\<exists>w'. createBooking b w = (Inr (Failure (message e)), w') \<and> db w' = db w))"
proof (intro conjI impI allI)
  fix e
  assume "fault w (calls w) = Some e"
  then show "\<exists>w'. createBooking b w = (Inr (Failure (message e)), w') \<and> db w' = db w"
    by (simp add: createBooking_rejected)
next
  assume f: "fault w (calls w) = None"
  let ?doc = "AList.update ''updatedAt'' (VTime (clock w (Suc (reads w))))
               (AList.update ''createdAt'' (VTime (clock w (reads w)))
                 (AList.update ''status'' (VStr ''pending'') (properties b)))"
  let ?w1 = "put_doc ''bookings'' (auto_id w (adds w)) ?doc
               (w\<lparr>reads := Suc (Suc (reads w)), adds := Suc (adds w), calls := Suc (calls w)\<rparr>)"
  let ?w' = "snd (updateAvailability (date b) (time b) (js_add (kids b) (adults b)) ?w1)"
  have stored: "map_of (db ?w1 ''bookings'') (auto_id w (adds w)) = Some ?doc"
    by (simp add: put_doc_def update_conv')
  have fields: "map_of ?doc ''status'' = Some (VStr ''pending'')"
    "map_of ?doc ''createdAt'' = Some (VTime (clock w (reads w)))"
    "map_of ?doc ''updatedAt'' = Some (VTime (clock w (Suc (reads w))))"
    "map_of ?doc ''date'' = Some (VStr (date b))"
    "map_of ?doc ''time'' = Some (VStr (time b))"
    "map_of ?doc ''kids'' = Some (VNum (uint (kids b)))"
    "map_of ?doc ''adults'' = Some (VNum (uint (adults b)))"
    by (simp_all add: update_conv' map_of_properties)
  have others:
    "\<forall>k. k \<notin> {''status'', ''createdAt'', ''updatedAt'', ''date'', ''time'', ''kids'', ''adults''}
       \<longrightarrow> map_of ?doc k = map_of (extra b) k"
    by (simp add: update_conv' map_of_properties)
  have frame:
    "\<forall>i. i \<noteq> auto_id w (adds w) \<longrightarrow> map_of (db ?w1 ''bookings'') i = map_of (db w ''bookings'') i"
    "\<forall>c. c \<noteq> ''bookings'' \<longrightarrow> db ?w1 c = db w c"
    by (simp_all add: put_doc_def update_conv')
  have result: "createBooking b w = (Inr (Success_id (auto_id w (adds w))), ?w')"
    using f by (rule createBooking_accepted)
  have incr: "booked ?w' (date b) (time b)
                = Some (VNum (count (booked w (date b) (time b))
                                + (uint (kids b) + uint (adults b))))"
    if h: "valid_doc_id (date b) \<and> slot_key (time b) \<and> fault w (calls w + 1) = None
          \<and> fault w (calls w + 2) = None \<and> fault w (calls w + 3) = None
          \<and> safe_integer (uint (kids b) + uint (adults b))
          \<and> safe_integer (count (booked w (date b) (time b)))
          \<and> safe_integer (count (booked w (date b) (time b))
                            + (uint (kids b) + uint (adults b)))"
  proof -
    have "uint (kids b) + uint (adults b) < 2 ^ 53"
      using h by (simp add: safe_integer_def)
    then have sum: "js_add (kids b) (adults b) = uint (kids b) + uint (adults b)"
      by (rule js_add_exact)
    have "booked ?w' (date b) (time b)
            = Some (VNum (count (booked ?w1 (date b) (time b)) + js_add (kids b) (adults b)))"
      using h
      by (intro updateAvailability_increments) (simp_all add: put_doc_def numeral_3_eq_3)
    moreover have "booked ?w1 (date b) (time b) = booked w (date b) (time b)"
      by (simp add: booked_def put_doc_def)
    ultimately show ?thesis
      by (simp add: sum)
  qed
  show "\<exists>doc w1 w'.
          map_of (db w1 ''bookings'') (auto_id w (adds w)) = Some doc
        \<and> map_of doc ''status'' = Some (VStr ''pending'')
        \<and> map_of doc ''createdAt'' = Some (VTime (clock w (reads w)))
        \<and> map_of doc ''updatedAt'' = Some (VTime (clock w (Suc (reads w))))
        \<and> map_of doc ''date'' = Some (VStr (date b))
        \<and> map_of doc ''time'' = Some (VStr (time b))
        \<and> map_of doc ''kids'' = Some (VNum (uint (kids b)))
        \<and> map_of doc ''adults'' = Some (VNum (uint (adults b)))
        \<and> (\<forall>k. k \<notin> {''status'', ''createdAt'', ''updatedAt'', ''date'', ''time'', ''kids'', ''adults''}
               \<longrightarrow> map_of doc k = map_of (extra b) k)
        \<and> (\<forall>i. i \<noteq> auto_id w (adds w)
               \<longrightarrow> map_of (db w1 ''bookings'') i = map_of (db w ''bookings'') i)
        \<and> (\<forall>c. c \<noteq> ''bookings'' \<longrightarrow> db w1 c = db w c)
        \<and> snd (updateAvailability (date b) (time b) (js_add (kids b) (adults b)) w1) = w'
        \<and> createBooking b w = (Inr (Success_id (auto_id w (adds w))), w')
        \<and> (valid_doc_id (date b) \<and> slot_key (time b) \<and> fault w (calls w + 1) = None
             \<and> fault w (calls w + 2) = None \<and> fault w (calls w + 3) = None
             \<and> safe_integer (uint (kids b) + uint (adults b))
             \<and> safe_integer (count (booked w (date b) (time b)))
             \<and> safe_integer (count (booked w (date b) (time b))
                               + (uint (kids b) + uint (adults b)))
            \<longrightarrow> booked w' (date b) (time b)
                  = Some (VNum (count (booked w (date b) (time b))
                                  + (uint (kids b) + uint (adults b)))))"
    apply (rule exI [of _ ?doc], rule exI [of _ ?w1], rule exI [of _ ?w'], intro conjI)
    by (rule stored fields others frame result refl | (rule impI, erule incr))+
qed

theorem createBooking_inserts_pending_witness:
  "(\<exists>w'. createBooking family_booking empty_world = (Inr (Success_id ''booking-0''), w')
        \<and> booked w' ''2024-06-01'' ''10:00'' = Some (VNum 3))
 \<and> (\<exists>w'. createBooking family_booking offline_world
             = (Inr (Failure ''The service is currently unavailable''), w')
        \<and> db w' = db offline_world)"
proof -
  have c: "auto_id empty_world (adds empty_world) = ''booking-0''"
    "count (booked empty_world ''2024-06-01'' ''10:00'') = 0"
    "date family_booking = ''2024-06-01''" "time family_booking = ''10:00''"
    "uint (kids family_booking) + uint (adults family_booking) = 3"
    "message unavailable = ''The service is currently unavailable''"
    by (simp_all add: empty_world_def family_booking_def toString_0 booked_def count_def
        unavailable_def)
  have a: "fault empty_world (calls empty_world) = None"
    by (simp add: empty_world_def)
  have a': "valid_doc_id (date family_booking) \<and> slot_key (time family_booking)
      \<and> fault empty_world (calls empty_world + 1) = None
      \<and> fault empty_world (calls empty_world + 2) = None
      \<and> fault empty_world (calls empty_world + 3) = None
      \<and> safe_integer (uint (kids family_booking) + uint (adults family_booking))
      \<and> safe_integer (count (booked empty_world (date family_booking) (time family_booking)))
      \<and> safe_integer (count (booked empty_world (date family_booking) (time family_booking))
                        + (uint (kids family_booking) + uint (adults family_booking)))"
    unfolding c by (simp add: empty_world_def valid_doc_id_def slot_key_def safe_integer_def)
  have b: "fault offline_world (calls offline_world) = Some unavailable"
    by (simp add: offline_world_def empty_world_def)
  note accepted = createBooking_inserts_pending
    [of empty_world family_booking, THEN conjunct1, THEN mp, OF a]
  note rejected = createBooking_inserts_pending
    [of offline_world family_booking, THEN conjunct2, THEN spec, THEN mp, OF b]
  from accepted obtain w' where
    r: "createBooking family_booking empty_world
       = (Inr (Success_id (auto_id empty_world (adds empty_world))), w')"
    and i: "valid_doc_id (date family_booking) \<and> slot_key (time family_booking)
      \<and> fault empty_world (calls empty_world + 1) = None
      \<and> fault empty_world (calls empty_world + 2) = None
      \<and> fault empty_world (calls empty_world + 3) = None
      \<and> safe_integer (uint (kids family_booking) + uint (adults family_booking))
      \<and> safe_integer (count (booked empty_world (date family_booking) (time family_booking)))
      \<and> safe_integer (count (booked empty_world (date family_booking) (time family_booking))
                        + (uint (kids family_booking) + uint (adults family_booking)))
      \<longrightarrow> booked w' (date family_booking) (time family_booking)
       = Some (VNum (count (booked empty_world (date family_booking) (time family_booking))
           + (uint (kids family_booking) + uint (adults family_booking))))"
    by (elim exE conjE) (rule that; assumption)
  from r i [THEN mp, OF a']
  have "\<exists>w'. createBooking family_booking empty_world = (Inr (Success_id ''booking-0''), w')
        \<and> booked w' ''2024-06-01'' ''10:00'' = Some (VNum 3)"
    by (simp add: c)
  then show ?thesis
    using rejected by (simp add: c)
qed

text \<open>
  C3, as the claim has it, fails where the store accepts the insert and rejects
  the read of the availability document: that is a store failure, the result is
  the success envelope all the same, and no availability is written for the date.
\<close>

theorem createBooking_store_failure_counterexample:
  "fault flaky_world 1 = Some unavailable
   \<and> fst (createBooking family_booking flaky_world) = Inr (Success_id ''booking-0'')
   \<and> booked (snd (createBooking family_booking flaky_world)) ''2024-06-01'' ''10:00'' = None"
proof -
  let ?w1 = "put_doc ''bookings'' (auto_id flaky_world (adds flaky_world))
           (AList.update ''updatedAt'' (VTime (clock flaky_world (Suc (reads flaky_world))))
             (AList.update ''createdAt'' (VTime (clock flaky_world (reads flaky_world)))
               (AList.update ''status'' (VStr ''pending'') (properties family_booking))))
           (flaky_world\<lparr>reads := Suc (Suc (reads flaky_world)), adds := Suc (adds flaky_world),
              calls := Suc (calls flaky_world)\<rparr>)"
  have f: "fault flaky_world (calls flaky_world) = None"
    by (simp add: flaky_world_def empty_world_def)
  have v: "valid_doc_id (date family_booking)"
    by (simp add: family_booking_def valid_doc_id_def)
  have r: "fault ?w1 (calls ?w1) = Some unavailable"
    by (simp add: put_doc_def flaky_world_def empty_world_def)
  have "db (snd (createBooking family_booking flaky_world)) ''availability'' = []"
    by (simp add: createBooking_accepted [OF f] updateAvailability_rejected [OF v r])
       (simp add: put_doc_def flaky_world_def empty_world_def)
  then have "booked (snd (createBooking family_booking flaky_world)) ''2024-06-01'' ''10:00'' = None"
    by (simp add: booked_def)
  moreover have "fst (createBooking family_booking flaky_world) = Inr (Success_id ''booking-0'')"
    by (simp add: createBooking_accepted [OF f])
       (simp add: flaky_world_def empty_world_def toString_0)
  ultimately show ?thesis
    by (simp add: flaky_world_def empty_world_def family_booking_def)
qed

text \<open>
  C10. \<^verbatim>\<open>updateAvailability\<close> never rejects: whatever the store does, it returns an
  envelope. So when the store accepts the insert, \<^verbatim>\<open>createBooking(data)\<close> returns
  the success envelope with the new identifier whatever envelope the availability
  update returned, and leaves the store as that update left it.
\<close>

theorem createBooking_ignores_availability_failure:
  assumes "fault w (calls w) = None"
  shows "(\<forall>d t c v. \<exists>r v'. updateAvailability d t c v = (Inr r, v'))
    \<and> (\<exists>w1 r w'.
          calls w1 = Suc (calls w) \<and> fault w1 = fault w
        \<and> updateAvailability (date b) (time b) (js_add (kids b) (adults b)) w1 = (Inr r, w')
        \<and> createBooking b w = (Inr (Success_id (auto_id w (adds w))), w'))"
proof
  show "\<forall>d t c v. \<exists>r v'. updateAvailability d t c v = (Inr r, v')"
    by (simp add: updateAvailability_never_rejects)
next
  let ?w1 = "put_doc ''bookings'' (auto_id w (adds w))
           (AList.update ''updatedAt'' (VTime (clock w (Suc (reads w))))
             (AList.update ''createdAt'' (VTime (clock w (reads w)))
               (AList.update ''status'' (VStr ''pending'') (properties b))))
           (w\<lparr>reads := Suc (Suc (reads w)), adds := Suc (adds w), calls := Suc (calls w)\<rparr>)"
  obtain r w' where
    u: "updateAvailability (date b) (time b) (js_add (kids b) (adults b)) ?w1 = (Inr r, w')"
    using updateAvailability_never_rejects by blast
  have "createBooking b w = (Inr (Success_id (auto_id w (adds w))), w')"
    using createBooking_accepted [OF assms, of b] u by simp
  moreover have "calls ?w1 = Suc (calls w)" "fault ?w1 = fault w"
    by (simp_all add: put_doc_def)
  ultimately show "\<exists>w1 r w'.
          calls w1 = Suc (calls w) \<and> fault w1 = fault w
        \<and> updateAvailability (date b) (time b) (js_add (kids b) (adults b)) w1 = (Inr r, w')
        \<and> createBooking b w = (Inr (Success_id (auto_id w (adds w))), w')"
    using u by blast
qed

theorem createBooking_ignores_availability_failure_witness:
  "fault flaky_world (calls flaky_world) = None
   \<and> (\<exists>w1 w'.
         updateAvailability ''2024-06-01'' ''10:00'' 3 w1
           = (Inr (Failure ''The service is currently unavailable''), w')
       \<and> createBooking family_booking flaky_world = (Inr (Success_id ''booking-0''), w'))"
proof -
  have f: "fault flaky_world (calls flaky_world) = None"
    by (simp add: flaky_world_def empty_world_def)
  have c: "auto_id flaky_world (adds flaky_world) = ''booking-0''"
    "date family_booking = ''2024-06-01''" "time family_booking = ''10:00''"
    "js_add (kids family_booking) (adults family_booking) = 3"
    "message unavailable = ''The service is currently unavailable''"
    "valid_doc_id ''2024-06-01''"
    by (simp_all add: flaky_world_def empty_world_def family_booking_def toString_0
        unavailable_def valid_doc_id_def js_add_def)
  from createBooking_ignores_availability_failure [OF f, of family_booking, THEN conjunct2]
  obtain w1 r w' where n: "calls w1 = Suc (calls flaky_world)" and e: "fault w1 = fault flaky_world"
    and u: "updateAvailability ''2024-06-01'' ''10:00'' 3 w1 = (Inr r, w')"
    and b: "createBooking family_booking flaky_world = (Inr (Success_id ''booking-0''), w')"
    unfolding c by (elim exE conjE) (rule that; assumption)
  have "fault w1 (calls w1) = Some unavailable"
    by (simp add: n e flaky_world_def empty_world_def)
  then have "r = Failure ''The service is currently unavailable''"
    using u updateAvailability_rejected [OF c(6), of w1 unavailable "''10:00''" 3] by (simp add: c)
  then show ?thesis
    using f u b by blast
qed






lemma parse_updatedAt: "parse_field_path ''updatedAt'' = Some [''updatedAt'']"
  by (simp add: parse_field_path_def)









lemma parse_status: "parse_field_path ''status'' = Some [''status'']"
  by (simp add: parse_field_path_def)

lemma updateBooking_confirmed:
  assumes "valid_doc_id i" and "map_of (db w ''bookings'') i = Some data"
    and "fault w (calls w) = None"
  shows "updateBooking i [(''status'', VStr ''confirmed'')] w =
     (Inr Success,
      put_doc ''bookings'' i
        (AList.update ''updatedAt'' (VTime (clock w (reads w)))
           (AList.update ''status'' (VStr ''confirmed'') data))
        (w\<lparr>reads := Suc (reads w), calls := Suc (calls w)\<rparr>))"
  using assms
  by (simp add: updateBooking_def try_catch_def await_def doc_ref_def js_return_def new_Date_def
      ref_update_def parse_status parse_updatedAt remote_ok apply_updates_def)

text \<open>
  C6. On a booking that exists, \<^verbatim>\<open>updateBooking(id, {status: "confirmed"})\<close>, when
  the store answers the update, returns the success envelope and changes in that
  record the \<^verbatim>\<open>status\<close> (now \<^verbatim>\<open>"confirmed"\<close>) and \<^verbatim>\<open>updatedAt\<close> (now the clock's
  reading) and no other field; every other booking, the list of booking
  identifiers and every other collection, availability included, are as before.
\<close>

theorem updateBooking_status_only:
  assumes "valid_doc_id i" and "map_of (db w ''bookings'') i = Some data"
    and "fault w (calls w) = None"
  shows "\<exists>w' data'.
      updateBooking i [(''status'', VStr ''confirmed'')] w = (Inr Success, w')
    \<and> map_of (db w' ''bookings'') i = Some data'
    \<and> map_of data' ''status'' = Some (VStr ''confirmed'')
    \<and> map_of data' ''updatedAt'' = Some (VTime (clock w (reads w)))
    \<and> (\<forall>k. k \<noteq> ''status'' \<and> k \<noteq> ''updatedAt'' \<longrightarrow> map_of data' k = map_of data k)
    \<and> (\<forall>j. j \<noteq> i \<longrightarrow> map_of (db w' ''bookings'') j = map_of (db w ''bookings'') j)
    \<and> map fst (db w' ''bookings'') = map fst (db w ''bookings'')
    \<and> (\<forall>c. c \<noteq> ''bookings'' \<longrightarrow> db w' c = db w c)"
proof -
  let ?data' = "AList.update ''updatedAt'' (VTime (clock w (reads w)))
                  (AList.update ''status'' (VStr ''confirmed'') data)"
  let ?w' = "put_doc ''bookings'' i ?data' (w\<lparr>reads := Suc (reads w), calls := Suc (calls w)\<rparr>)"
  have u: "updateBooking i [(''status'', VStr ''confirmed'')] w = (Inr Success, ?w')"
    by (rule updateBooking_confirmed [OF assms])
  have "i \<in> fst ` set (db w ''bookings'')"
    using assms(2) by (metis domI dom_map_of_conv_image_fst)
  then have keys: "map fst (db ?w' ''bookings'') = map fst (db w ''bookings'')"
    by (simp add: put_doc_def update_keys)
  have rest: "map_of (db ?w' ''bookings'') i = Some ?data'"
    "map_of ?data' ''status'' = Some (VStr ''confirmed'')"
    "map_of ?data' ''updatedAt'' = Some (VTime (clock w (reads w)))"
    "\<forall>k. k \<noteq> ''status'' \<and> k \<noteq> ''updatedAt'' \<longrightarrow> map_of ?data' k = map_of data k"
    "\<forall>j. j \<noteq> i \<longrightarrow> map_of (db ?w' ''bookings'') j = map_of (db w ''bookings'') j"
    "\<forall>c. c \<noteq> ''bookings'' \<longrightarrow> db ?w' c = db w c"
    by (simp_all add: put_doc_def update_conv')
  show ?thesis
    apply (rule exI [of _ ?w'], rule exI [of _ ?data'], intro conjI)
    by (rule u keys rest)+
qed

theorem updateBooking_status_only_witness:
  "valid_doc_id ''booking-0''
   \<and> map_of (db one_booking_world ''bookings'') ''booking-0'' = Some stored_booking
   \<and> (\<exists>w' data'.
        updateBooking ''booking-0'' [(''status'', VStr ''confirmed'')] one_booking_world
          = (Inr Success, w')
      \<and> map_of (db w' ''bookings'') ''booking-0'' = Some data'
      \<and> map_of data' ''status'' = Some (VStr ''confirmed'')
      \<and> map_of data' ''updatedAt'' = Some (VTime 1700000000000)
      \<and> map_of data' ''createdAt'' = Some (VTime 1690000000000)
      \<and> map_of data' ''kids'' = Some (VNum 2))"
proof -
  have v: "valid_doc_id ''booking-0''"
    by (simp add: valid_doc_id_def)
  have b: "map_of (db one_booking_world ''bookings'') ''booking-0'' = Some stored_booking"
    by (simp add: one_booking_world_def empty_world_def)
  have f: "fault one_booking_world (calls one_booking_world) = None"
    by (simp add: one_booking_world_def empty_world_def)
  have c: "clock one_booking_world (reads one_booking_world) = 1700000000000"
    "map_of stored_booking ''createdAt'' = Some (VTime 1690000000000)"
    "map_of stored_booking ''kids'' = Some (VNum 2)"
    by (simp_all add: one_booking_world_def empty_world_def stored_booking_def)
  from updateBooking_status_only [OF v b f]
  obtain w' data' where
    "updateBooking ''booking-0'' [(''status'', VStr ''confirmed'')] one_booking_world
       = (Inr Success, w')"
    "map_of (db w' ''bookings'') ''booking-0'' = Some data'"
    "map_of data' ''status'' = Some (VStr ''confirmed'')"
    "map_of data' ''updatedAt'' = Some (VTime (clock one_booking_world (reads one_booking_world)))"
    "\<forall>k. k \<noteq> ''status'' \<and> k \<noteq> ''updatedAt'' \<longrightarrow> map_of data' k = map_of stored_booking k"
    by (elim exE conjE) (rule that; assumption)
  then show ?thesis
    using v b c by (intro conjI exI [of _ w'] exI [of _ data']) simp_all
qed

lemma deleteBooking_accepted:
  assumes "valid_doc_id i" and "fault w (calls w) = None"
  shows "deleteBooking i w =
     (Inr Success,
      w\<lparr>calls := Suc (calls w),
        db := (db w)(''bookings'' := AList.delete i (db w ''bookings''))\<rparr>)"
  using assms
  by (simp add: deleteBooking_def try_catch_def await_def doc_ref_def js_return_def
      ref_delete_def remote_ok)

lemma deleteBooking_availability:
  "db (snd (deleteBooking i w)) ''availability'' = db w ''availability''"
  by (simp add: deleteBooking_def try_catch_def await_def doc_ref_def js_return_def js_throw_def
      ref_delete_def remote_def Let_def split: option.splits)

lemma getAllBookings_results:
  assumes "getAllBookings w = (Inr r, w')"
  shows "(\<exists>m. r = Failure m)
     \<or> (\<exists>snapshot. r = Success_bookings (map with_id snapshot)
           \<and> set snapshot \<subseteq> set (db w ''bookings''))"
  using assms
  by (auto simp: getAllBookings_def try_catch_def await_def js_return_def orderBy_desc_get_def
      remote_def Let_def split: option.splits)

text \<open>
  C5. \<^verbatim>\<open>deleteBooking(id)\<close> never changes the availability collection, whatever
  the identifier and whatever the store does. When the store answers the delete,
  the method returns the success envelope, no booking is left under the
  identifier, the other bookings and collections are as before, and whatever
  \<^verbatim>\<open>getAllBookings\<close> then returns on success is built from documents of the old
  store other than the deleted one.
\<close>

theorem deleteBooking_removes_record_only:
  "db (snd (deleteBooking i w)) ''availability'' = db w ''availability''
   \<and> (valid_doc_id i \<and> fault w (calls w) = None \<longrightarrow>
        (\<exists>w'. deleteBooking i w = (Inr Success, w')
           \<and> map_of (db w' ''bookings'') i = None
           \<and> (\<forall>j. j \<noteq> i \<longrightarrow> map_of (db w' ''bookings'') j = map_of (db w ''bookings'') j)
           \<and> (\<forall>c. c \<noteq> ''bookings'' \<longrightarrow> db w' c = db w c)
           \<and> (\<forall>r w''. getAllBookings w' = (Inr r, w'') \<longrightarrow>
                 (\<exists>m. r = Failure m)
               \<or> (\<exists>snapshot. r = Success_bookings (map with_id snapshot)
                     \<and> i \<notin> fst ` set snapshot
                     \<and> set snapshot \<subseteq> set (db w ''bookings'')))))"
proof (intro conjI impI)
  show "db (snd (deleteBooking i w)) ''availability'' = db w ''availability''"
    by (rule deleteBooking_availability)
next
  assume a: "valid_doc_id i \<and> fault w (calls w) = None"
  let ?w' = "w\<lparr>calls := Suc (calls w),
               db := (db w)(''bookings'' := AList.delete i (db w ''bookings''))\<rparr>"
  have d: "deleteBooking i w = (Inr Success, ?w')"
    using a by (simp add: deleteBooking_accepted)
  have k: "i \<notin> fst ` set (db ?w' ''bookings'')"
    by (simp add: delete_notin_dom)
  have s: "set (db ?w' ''bookings'') \<subseteq> set (db w ''bookings'')"
    by (auto simp: AList.delete_eq)
  have g: "(\<exists>m. r = Failure m)
         \<or> (\<exists>snapshot. r = Success_bookings (map with_id snapshot)
               \<and> i \<notin> fst ` set snapshot \<and> set snapshot \<subseteq> set (db w ''bookings''))"
    if "getAllBookings ?w' = (Inr r, w'')" for r w''
    using getAllBookings_results [OF that] k s by blast
  show "\<exists>w'. deleteBooking i w = (Inr Success, w')
           \<and> map_of (db w' ''bookings'') i = None
           \<and> (\<forall>j. j \<noteq> i \<longrightarrow> map_of (db w' ''bookings'') j = map_of (db w ''bookings'') j)
           \<and> (\<forall>c. c \<noteq> ''bookings'' \<longrightarrow> db w' c = db w c)
           \<and> (\<forall>r w''. getAllBookings w' = (Inr r, w'') \<longrightarrow>
                 (\<exists>m. r = Failure m)
               \<or> (\<exists>snapshot. r = Success_bookings (map with_id snapshot)
                     \<and> i \<notin> fst ` set snapshot
                     \<and> set snapshot \<subseteq> set (db w ''bookings'')))"
    apply (rule exI [of _ ?w'], intro conjI allI impI)
        apply (rule d)
       apply (simp add: delete_conv')
      apply (simp add: delete_conv')
     apply simp
    by (erule g)
qed

theorem deleteBooking_removes_record_only_witness:
  "valid_doc_id ''booking-0'' \<and> fault one_booking_world (calls one_booking_world) = None
   \<and> map_of (db one_booking_world ''bookings'') ''booking-0'' = Some stored_booking
   \<and> (\<exists>w'. deleteBooking ''booking-0'' one_booking_world = (Inr Success, w')
          \<and> map_of (db w' ''bookings'') ''booking-0'' = None)"
proof -
  have a: "valid_doc_id ''booking-0'' \<and> fault one_booking_world (calls one_booking_world) = None"
    by (simp add: valid_doc_id_def one_booking_world_def empty_world_def)
  have b: "map_of (db one_booking_world ''bookings'') ''booking-0'' = Some stored_booking"
    by (simp add: one_booking_world_def empty_world_def)
  from deleteBooking_removes_record_only
    [of "''booking-0''" one_booking_world, THEN conjunct2, THEN mp, OF a]
  obtain w' where "deleteBooking ''booking-0'' one_booking_world = (Inr Success, w')"
    and "map_of (db w' ''bookings'') ''booking-0'' = None"
    by (elim exE conjE) (rule that; assumption)
  then show ?thesis
    using a b by blast
qed

section \<open>Authentication\<close>

lemma where_eq_get_accepted:
  "fault w (calls w) = None \<Longrightarrow>
   where_eq_get c field v w =
     (Inr (sort_key fst (filter (\<lambda>(i, d). map_of d field = Some v) (db w c))),
      w\<lparr>calls := Suc (calls w)\<rparr>)"
  by (simp add: where_eq_get_def remote_ok)

lemma sort_key_Nil_iff: "sort_key f xs = [] \<longleftrightarrow> xs = []"
  by (metis length_0_conv length_sort)

lemma no_match_iff:
  "sort_key fst (filter (\<lambda>(i, d). map_of d field = Some v) xs) \<noteq> []
     \<longleftrightarrow> (\<exists>(i, d) \<in> set xs. map_of d field = Some v)"
  by (auto simp: sort_key_Nil_iff filter_empty_conv)

lemma isAdmin_rejects:
  assumes "currentUser w = Some email" and "fault w (calls w) = Some e"
  shows "fst (isAdmin w) = Inl e"
  using assms by (simp add: isAdmin_def await_def where_eq_get_def remote_rejected)

text \<open>
  C4. When the provider accepts the credentials, no document of \<^verbatim>\<open>admins\<close> has
  the email, and the provider and the store answer the three requests (sign-in,
  lookup, sign-out), \<^verbatim>\<open>adminLogin(email, password)\<close> returns
  \<^verbatim>\<open>{success: false, error: "Not an admin user"}\<close> and leaves nobody signed in, so
  that \<^verbatim>\<open>isAdmin()\<close> then returns false.
\<close>

theorem adminLogin_not_admin:
  assumes "map_of (accounts w) email = Some password"
    and "\<forall>(i, d) \<in> set (db w ''admins''). map_of d ''email'' \<noteq> Some (VStr email)"
    and "fault w (calls w) = None" and "fault w (calls w + 1) = None"
    and "fault w (calls w + 2) = None"
  shows "\<exists>w'. adminLogin email password w = (Inr (Failure ''Not an admin user''), w')
           \<and> currentUser w' = None \<and> isAdmin w' = (Inr False, w')"
proof -
  have "\<not> (\<exists>(i, d) \<in> set (db w ''admins''). map_of d ''email'' = Some (VStr email))"
    using assms(2) by auto
  then have e: "sort_key fst (filter (\<lambda>(i, d). map_of d ''email'' = Some (VStr email))
                  (db w ''admins'')) = []"
    using no_match_iff [of "''email''" "VStr email" "db w ''admins''"] by blast
  have "adminLogin email password w =
      (Inr (Failure ''Not an admin user''), w\<lparr>currentUser := None, calls := calls w + 3\<rparr>)"
    using assms(1,3,4,5) e
    by (simp add: adminLogin_def try_catch_def await_def js_return_def
        signInWithEmailAndPassword_def signOut_def remote_ok where_eq_get_accepted)
  then show ?thesis
    by (simp add: isAdmin_def js_return_def)
qed

theorem adminLogin_not_admin_witness:
  "map_of (accounts empty_world) ''owner@happyville.example'' = Some ''secret''
   \<and> (\<exists>w'. adminLogin ''owner@happyville.example'' ''secret'' empty_world
              = (Inr (Failure ''Not an admin user''), w')
          \<and> currentUser w' = None \<and> isAdmin w' = (Inr False, w'))"
proof -
  have a: "map_of (accounts empty_world) ''owner@happyville.example'' = Some ''secret''"
    by (simp add: empty_world_def)
  have n: "\<forall>(i, d) \<in> set (db empty_world ''admins'').
             map_of d ''email'' \<noteq> Some (VStr ''owner@happyville.example'')"
    by (simp add: empty_world_def)
  have f: "fault empty_world (calls empty_world) = None"
    "fault empty_world (calls empty_world + 1) = None"
    "fault empty_world (calls empty_world + 2) = None"
    by (simp_all add: empty_world_def)
  show ?thesis
    using a adminLogin_not_admin [OF a n f] by simp
qed

text \<open>
  C8. \<^verbatim>\<open>isAdmin()\<close> fulfils with a boolean, not an envelope: with nobody signed in
  it is false, without asking the store; with a user signed in and the lookup
  answered, it is true exactly when some document of \<^verbatim>\<open>admins\<close> has the user's
  email. (A rejected lookup rejects the call: \<open>isAdmin_rejects\<close>.)
\<close>

theorem isAdmin_boolean:
  assumes "currentUser w = None \<or> fault w (calls w) = None"
  shows "fst (isAdmin w) =
     Inr (\<exists>email. currentUser w = Some email
            \<and> (\<exists>(i, d) \<in> set (db w ''admins''). map_of d ''email'' = Some (VStr email)))"
proof (cases "currentUser w")
  case None
  then show ?thesis by (simp add: isAdmin_def js_return_def)
next
  case (Some email)
  then have "fault w (calls w) = None" using assms by simp
  then show ?thesis
    using Some no_match_iff [of "''email''" "VStr email" "db w ''admins''"]
    by (simp add: isAdmin_def await_def js_return_def where_eq_get_accepted)
qed

theorem isAdmin_boolean_witness:
  "fst (isAdmin admin_world) = Inr True \<and> fst (isAdmin empty_world) = Inr False"
proof -
  have a: "currentUser admin_world = None \<or> fault admin_world (calls admin_world) = None"
    and b: "currentUser empty_world = None \<or> fault empty_world (calls empty_world) = None"
    by (simp_all add: admin_world_def empty_world_def)
  have "fst (isAdmin admin_world) = Inr True"
    using isAdmin_boolean [OF a] by (simp add: admin_world_def empty_world_def)
  moreover have "fst (isAdmin empty_world) = Inr False"
    using isAdmin_boolean [OF b] by (simp add: empty_world_def)
  ultimately show ?thesis by simp
qed

section \<open>Calls in flight together\<close>

text \<open>A call that takes its three turns with no other call between them.\<close>

lemma updateAvailability_alone:
  "\<exists>r w'. interleave d t c [0, 0, 0] ([At_get], w) = ([Returned r], w')
          \<and> updateAvailability d t c w = (Inr r, w')"
  by (auto simp: updateAvailability_def ua_step_def try_catch_def await_def doc_ref_def
      js_return_def js_throw_def ref_get_def ref_set_def ref_update_def remote_def Let_def
      split: option.splits prod.splits sum.splits if_splits)


lemma ua_step_get:
  assumes "valid_doc_id d" and "fault w (calls w) = None"
  shows "ua_step d t c At_get w =
     (if map_of (db w ''availability'') d = None then At_set else At_update,
      w\<lparr>calls := Suc (calls w)\<rparr>)"
  using assms
  by (simp add: ua_step_def await_def doc_ref_def js_return_def ref_get_def remote_ok)

lemma ua_step_set:
  assumes "fault w (calls w) = None"
  shows "ua_step d t c At_set w =
     (At_update, put_doc ''availability'' d (default_day d) (w\<lparr>calls := Suc (calls w)\<rparr>))"
  using assms
  by (simp add: ua_step_def ref_set_def remote_ok default_day_def)

lemma ua_step_update:
  assumes "slot_key t" and "fault w (calls w) = None"
    and "map_of (db w ''availability'') d = Some data"
  shows "ua_step d t c At_update w =
     (Returned Success,
      put_doc ''availability'' d (update_path [''slots'', t, ''booked''] (Increment c) data)
        (w\<lparr>calls := Suc (calls w)\<rparr>))"
  using assms parse_slot_path [OF assms(1)]
  by (simp add: ua_step_def ref_update_def remote_ok apply_updates_def)

lemma booked_put_doc:
  "booked (put_doc ''availability'' d data w) d t
     = js_get (js_get (map_of data ''slots'') t) ''booked''"
  by (simp add: booked_def put_doc_def update_conv')

lemma map_of_put_doc:
  "map_of (db (put_doc c d data w) c) d = Some data"
  by (simp add: put_doc_def update_conv')

lemma put_doc_keeps:
  "fault (put_doc c d data w) = fault w" "calls (put_doc c d data w) = calls w"
  by (simp_all add: put_doc_def)

text \<open>Two calls on a fresh date, one after the other, and then taking turns.\<close>

lemma calls_in_turn:
  assumes "valid_doc_id d" and "slot_key t" and "map_of (db w ''availability'') d = None"
    and "fault w = (\<lambda>n. None)"
  shows "\<exists>w'. interleave d t 1 [0, 0, 0, 1, 1] ([At_get, At_get], w)
             = ([Returned Success, Returned Success], w')
           \<and> booked w' d t = Some (VNum 2)"
proof -
  define once where "once = update_path [''slots'', t, ''booked''] (Increment 1) (default_day d)"
  define twice where "twice = update_path [''slots'', t, ''booked''] (Increment 1) once"
  define w1 where "w1 = w\<lparr>calls := Suc (calls w)\<rparr>"
  define w2 where "w2 = put_doc ''availability'' d (default_day d) (w1\<lparr>calls := Suc (calls w1)\<rparr>)"
  define w3 where "w3 = put_doc ''availability'' d once (w2\<lparr>calls := Suc (calls w2)\<rparr>)"
  define w4 where "w4 = w3\<lparr>calls := Suc (calls w3)\<rparr>"
  define w5 where "w5 = put_doc ''availability'' d twice (w4\<lparr>calls := Suc (calls w4)\<rparr>)"
  have f: "fault w1 = (\<lambda>n. None)" "fault w2 = (\<lambda>n. None)" "fault w3 = (\<lambda>n. None)"
    "fault w4 = (\<lambda>n. None)"
    using assms(4) by (simp_all add: w1_def w2_def w3_def w4_def put_doc_keeps)
  have e: "map_of (db w3 ''availability'') d = Some once"
    "map_of (db w4 ''availability'') d = Some once"
    by (simp_all add: w3_def w4_def map_of_put_doc)
  have s1: "ua_step d t 1 At_get w = (At_set, w1)"
    using assms by (simp add: ua_step_get w1_def)
  have s2: "ua_step d t 1 At_set w1 = (At_update, w2)"
    using f by (simp add: ua_step_set w2_def)
  have s3: "ua_step d t 1 At_update w2 = (Returned Success, w3)"
    unfolding w3_def once_def
    by (rule ua_step_update [OF assms(2)]) (simp add: f, simp add: w2_def map_of_put_doc)
  have s4: "ua_step d t 1 At_get w3 = (At_update, w4)"
    using assms(1) f e by (simp add: ua_step_get w4_def)
  have s5: "ua_step d t 1 At_update w4 = (Returned Success, w5)"
    unfolding w5_def twice_def
    by (rule ua_step_update [OF assms(2)]) (simp add: f, rule e)
  have "interleave d t 1 [0, 0, 0, 1, 1] ([At_get, At_get], w)
          = ([Returned Success, Returned Success], w5)"
    by (simp add: s1 s2 s3 s4 s5)
  moreover have "booked w5 d t = Some (VNum 2)"
    using default_day_count [of d t]
    by (simp add: w5_def twice_def once_def booked_put_doc js_get_update_path apply_op_Increment
        del: update_path.simps) (simp add: count_def)
  ultimately show ?thesis by blast
qed

lemma lost_update:
  assumes "valid_doc_id d" and "slot_key t" and "map_of (db w ''availability'') d = None"
    and "fault w = (\<lambda>n. None)"
  shows "\<exists>w'. interleave d t 1 [0, 1, 0, 0, 1, 1] ([At_get, At_get], w)
             = ([Returned Success, Returned Success], w')
           \<and> booked w' d t = Some (VNum 1)"
proof -
  define once where "once = update_path [''slots'', t, ''booked''] (Increment 1) (default_day d)"
  define w1 where "w1 = w\<lparr>calls := Suc (calls w)\<rparr>"
  define w2 where "w2 = w1\<lparr>calls := Suc (calls w1)\<rparr>"
  define w3 where "w3 = put_doc ''availability'' d (default_day d) (w2\<lparr>calls := Suc (calls w2)\<rparr>)"
  define w4 where "w4 = put_doc ''availability'' d once (w3\<lparr>calls := Suc (calls w3)\<rparr>)"
  define w5 where "w5 = put_doc ''availability'' d (default_day d) (w4\<lparr>calls := Suc (calls w4)\<rparr>)"
  define w6 where "w6 = put_doc ''availability'' d once (w5\<lparr>calls := Suc (calls w5)\<rparr>)"
  have f: "fault w1 = (\<lambda>n. None)" "fault w2 = (\<lambda>n. None)" "fault w3 = (\<lambda>n. None)"
    "fault w4 = (\<lambda>n. None)" "fault w5 = (\<lambda>n. None)"
    using assms(4) by (simp_all add: w1_def w2_def w3_def w4_def w5_def put_doc_keeps)
  have n: "map_of (db w1 ''availability'') d = None"
    using assms(3) by (simp add: w1_def)
  have s1: "ua_step d t 1 At_get w = (At_set, w1)"
    using assms by (simp add: ua_step_get w1_def)
  have s2: "ua_step d t 1 At_get w1 = (At_set, w2)"
    using assms(1) n f by (simp add: ua_step_get w2_def)
  have s3: "ua_step d t 1 At_set w2 = (At_update, w3)"
    using f by (simp add: ua_step_set w3_def)
  have s4: "ua_step d t 1 At_update w3 = (Returned Success, w4)"
    unfolding w4_def once_def
    by (rule ua_step_update [OF assms(2)]) (simp add: f, simp add: w3_def map_of_put_doc)
  have s5: "ua_step d t 1 At_set w4 = (At_update, w5)"
    using f by (simp add: ua_step_set w5_def)
  have s6: "ua_step d t 1 At_update w5 = (Returned Success, w6)"
    unfolding w6_def once_def
    by (rule ua_step_update [OF assms(2)]) (simp add: f, simp add: w5_def map_of_put_doc)
  have "interleave d t 1 [0, 1, 0, 0, 1, 1] ([At_get, At_get], w)
          = ([Returned Success, Returned Success], w6)"
    by (simp add: s1 s2 s3 s4 s5 s6)
  moreover have "booked w6 d t = Some (VNum 1)"
    using default_day_count [of d t]
    by (simp add: w6_def once_def booked_put_doc js_get_update_path apply_op_Increment
        del: update_path.simps)
  ultimately show ?thesis by blast
qed

text \<open>
  C9. Two calls \<^verbatim>\<open>updateAvailability("2024-06-01", "09:00", +1)\<close> in flight
  together on a date that has no availability document yet, in a store that
  answers every request: both read that the document is missing, the first
  writes the default day and increments, then the second writes the default day
  over it and increments. Both return the success envelope, and
  \<^verbatim>\<open>slots["09:00"].booked\<close> is 1, not 2: the first increment is lost.
\<close>

theorem concurrent_updateAvailability_loses_update:
  "\<exists>w'. interleave ''2024-06-01'' ''09:00'' 1 [0, 1, 0, 0, 1, 1] ([At_get, At_get], empty_world)
           = ([Returned Success, Returned Success], w')
         \<and> booked w' ''2024-06-01'' ''09:00'' = Some (VNum 1)"
  by (rule lost_update) (simp_all add: valid_doc_id_def slot_key_def empty_world_def)


text \<open>
  On a date that has its availability document no call writes the default day,
  and the increments of the calls add up whatever the schedule: when every
  request is answered and all \<open>N\<close> calls have returned, the count has grown by
  \<open>N\<close> times the change.
\<close>

lemma filter_list_update:
  "i < length xs \<Longrightarrow>
   length (filter P (xs[i := y])) + (if P (xs ! i) then 1 else 0)
     = length (filter P xs) + (if P y then 1 else 0)"
proof (induction xs arbitrary: i)
  case Nil
  then show ?case by simp
next
  case (Cons x xs)
  show ?case
  proof (cases i)
    case 0
    then show ?thesis by simp
  next
    case (Suc j)
    then have "j < length xs"
      using Cons.prems by simp
    from Cons.IH [OF this] show ?thesis
      by (simp add: Suc)
  qed
qed

lemma returned_update:
  assumes "i < length pcs"
  shows "pcs ! i \<noteq> Returned Success \<Longrightarrow> pc' \<noteq> Returned Success
           \<Longrightarrow> returned (pcs[i := pc']) = returned pcs"
    and "pcs ! i \<noteq> Returned Success \<Longrightarrow> returned (pcs[i := Returned Success]) = Suc (returned pcs)"
  using filter_list_update [OF assms, of "\<lambda>p. p = Returned Success"]
  by (simp_all add: returned_def)

lemma booked_calls: "booked (w\<lparr>calls := n\<rparr>) d t = booked w d t"
  by (simp add: booked_def)

lemma ua_step_existing_day:
  assumes "valid_doc_id d" and "slot_key t" and "fault w = (\<lambda>n. None)"
    and "map_of (db w ''availability'') d \<noteq> None"
    and "set pcs \<subseteq> {At_get, At_update, Returned Success}"
    and "i < length pcs" and "ua_step d t c (pcs ! i) w = (pc', w')"
  shows "fault w' = (\<lambda>n. None) \<and> map_of (db w' ''availability'') d \<noteq> None
       \<and> set (pcs[i := pc']) \<subseteq> {At_get, At_update, Returned Success}
       \<and> count (booked w' d t) + c * int (returned pcs)
           = count (booked w d t) + c * int (returned (pcs[i := pc']))"
proof -
  obtain data where data: "map_of (db w ''availability'') d = Some data"
    using assms(4) by blast
  have f: "fault w (calls w) = None"
    using assms(3) by simp
  have "pcs ! i \<in> {At_get, At_update, Returned Success}"
    using assms(5,6) nth_mem by blast
  then consider "pcs ! i = At_get" | "pcs ! i = At_update" | "pcs ! i = Returned Success"
    by blast
  then show ?thesis
  proof cases
    case 1
    then have "pc' = At_update" "w' = w\<lparr>calls := Suc (calls w)\<rparr>"
      using assms(7) data by (simp_all add: ua_step_get [OF assms(1) f])
    then show ?thesis
      using assms(3,4,5,6) 1 set_update_subset_insert [of pcs i At_update]
      by (auto simp: booked_calls returned_update)
  next
    case 2
    then have pc': "pc' = Returned Success"
      and w': "w' = put_doc ''availability'' d
                 (update_path [''slots'', t, ''booked''] (Increment c) data)
                 (w\<lparr>calls := Suc (calls w)\<rparr>)"
      using assms(7) by (simp_all add: ua_step_update [OF assms(2) f data])
    have "booked w' d t
            = Some (apply_op (Increment c) (js_get (js_get (map_of data ''slots'') t) ''booked''))"
      by (simp add: w' booked_put_doc js_get_update_path del: update_path.simps)
    moreover have "booked w d t = js_get (js_get (map_of data ''slots'') t) ''booked''"
      by (simp add: booked_def data)
    ultimately have "count (booked w' d t) = count (booked w d t) + c"
      by (simp add: apply_op_Increment) (simp add: count_def)
    moreover have "returned (pcs[i := pc']) = Suc (returned pcs)"
      using 2 assms(6) by (simp add: pc' returned_update)
    moreover have "set (pcs[i := pc']) \<subseteq> {At_get, At_update, Returned Success}"
      using assms(5) set_update_subset_insert [of pcs i pc'] by (auto simp: pc')
    ultimately show ?thesis
      using assms(3) by (simp add: w' put_doc_keeps map_of_put_doc algebra_simps)
  next
    case 3
    then have "pc' = Returned Success" "w' = w"
      using assms(7) by (simp_all add: ua_step_def)
    then show ?thesis
      using assms(3,4,5) 3 by (metis list_update_id)
  qed
qed

lemma interleave_existing_day:
  assumes "valid_doc_id d" and "slot_key t"
  shows "fault w = (\<lambda>n. None) \<Longrightarrow> map_of (db w ''availability'') d \<noteq> None
     \<Longrightarrow> set pcs \<subseteq> {At_get, At_update, Returned Success}
     \<Longrightarrow> interleave d t c schedule (pcs, w) = (pcs', w')
     \<Longrightarrow> set pcs' \<subseteq> {At_get, At_update, Returned Success} \<and> length pcs' = length pcs
       \<and> count (booked w' d t) + c * int (returned pcs)
           = count (booked w d t) + c * int (returned pcs')"
proof (induction schedule arbitrary: pcs w)
  case Nil
  then show ?case by simp
next
  case (Cons i schedule)
  show ?case
  proof (cases "i < length pcs")
    case False
    then show ?thesis
      using Cons.IH [OF Cons.prems(1,2,3)] Cons.prems(4) by simp
  next
    case True
    obtain pc1 w1 where step: "ua_step d t c (pcs ! i) w = (pc1, w1)"
      by fastforce
    note one = ua_step_existing_day [OF assms Cons.prems(1,2,3) True step]
    have rest: "interleave d t c schedule (pcs[i := pc1], w1) = (pcs', w')"
      using Cons.prems(4) True step by simp
    have "set pcs' \<subseteq> {At_get, At_update, Returned Success}
        \<and> length pcs' = length (pcs[i := pc1])
        \<and> count (booked w' d t) + c * int (returned (pcs[i := pc1]))
           = count (booked w1 d t) + c * int (returned pcs')"
      using one by (intro Cons.IH [OF _ _ _ rest]) simp_all
    then show ?thesis
      using one by simp
  qed
qed

lemma concurrent_updates_on_existing_day:
  assumes "valid_doc_id d" and "slot_key t" and "fault w = (\<lambda>n. None)"
    and "map_of (db w ''availability'') d = Some data"
    and "interleave d t c schedule (replicate N At_get, w) = (pcs', w')"
    and "\<forall>p \<in> set pcs'. \<exists>r. p = Returned r"
  shows "count (booked w' d t) = count (booked w d t) + c * int N"
proof -
  have "set (replicate N At_get) \<subseteq> {At_get, At_update, Returned Success}"
    by auto
  from interleave_existing_day [OF assms(1,2,3) _ this assms(5)] assms(4)
  have s: "set pcs' \<subseteq> {At_get, At_update, Returned Success}" and l: "length pcs' = N"
    and e: "count (booked w' d t) + c * int (returned (replicate N At_get))
              = count (booked w d t) + c * int (returned pcs')"
    by simp_all
  have "\<forall>p \<in> set pcs'. p = Returned Success"
    using s assms(6) by auto
  then have "filter (\<lambda>p. p = Returned Success) pcs' = pcs'"
    by (simp add: filter_id_conv)
  then have "returned pcs' = N"
    using l by (simp add: returned_def)
  moreover have "returned (replicate N At_get) = 0"
    by (simp add: returned_def)
  ultimately show ?thesis
    using e by simp
qed

end
